theory Spec2Isabelle
  imports Complex_Main "HOL-Library.Word"
begin

unbundle bit_operations_syntax

section \<open>Go values\<close>

text \<open>
  A Go \<^verbatim>\<open>byte\<close> is an 8-bit word. Go's \<^verbatim>\<open>int\<close> is modelled at its width on the
  64-bit targets (\<^verbatim>\<open>unsafe.Sizeof(value) = 8\<close>): a 64-bit word read as two's complement,
  so that \<^verbatim>\<open>>>\<close> on it is the arithmetic shift \<^const>\<open>signed_drop_bit\<close> and comparisons
  are the signed ones.
\<close>

type_synonym byte = "8 word"
type_synonym goint = "64 word"

text \<open>
  The sentinel errors of the two packages that the modelled functions return, and
  \<open>ErrTransport\<close> for the errors that the transport itself returns from a read or a write.
\<close>

datatype error =
    ErrNoDataToUnpack
  | ErrInvalidWrite
  | ErrInvalidResponseMessage
  | ErrInvalidHeaderLength
  | ErrRequestResponseMismatch
  | ErrTimeout
  | ErrTransport nat

text \<open>
  A run-time panic is not a returned error: it unwinds the call. Every function that can
  panic returns a \<open>result\<close>, next to the state of its receiver when it stopped.
\<close>

datatype panic =
    PanicValueOutOfBounds
  | PanicIndexOutOfRange
  | PanicSliceBounds

datatype 'a result = Panicked panic | Returned 'a

section \<open>compression/varint.go\<close>

text \<open>
  \<^verbatim>\<open>type VarInt struct { Compressed []byte }\<close>. A nil slice is \<open>None\<close>; the functions
  below replace it by an empty one (\<^verbatim>\<open>Clear\<close>) before they do anything else.
\<close>

record VarInt =
  Compressed :: "byte list option"

text \<open>
  Modelled from the spec: the constant \<^verbatim>\<open>maxBytesInVarInt\<close> is declared outside the two
  source files; the spec fixes the maximum length of an encoded integer at 5 bytes.
\<close>

definition maxBytesInVarInt :: nat where
  "maxBytesInVarInt = 5"


definition Clear :: "VarInt \<Rightarrow> VarInt" where
  "Clear v = v\<lparr>Compressed := Some []\<rparr>"

text \<open>The guard \<^verbatim>\<open>if v.Compressed == nil { v.Clear() }\<close> that opens every method.\<close>

definition ensure :: "VarInt \<Rightarrow> VarInt" where
  "ensure v = (if Compressed v = None then Clear v else v)"

text \<open>The bytes held by a buffer, a nil slice holding none.\<close>

definition contents :: "VarInt \<Rightarrow> byte list" where
  "contents v = (case Compressed v of None \<Rightarrow> [] | Some bs \<Rightarrow> bs)"

definition Size :: "VarInt \<Rightarrow> nat \<times> VarInt" where
  "Size v = (let v' = ensure v in (length (contents v'), v'))"

definition Bytes :: "VarInt \<Rightarrow> byte list \<times> VarInt" where
  "Bytes v = (let v' = ensure v in (contents v', v'))"

text \<open>An indexed read \<^verbatim>\<open>data[index]\<close>: out of range it panics.\<close>

definition go_index :: "byte list \<Rightarrow> nat \<Rightarrow> panic + byte" where
  "go_index data index =
     (if index < length data then Inr (data ! index) else Inl PanicIndexOutOfRange)"

text \<open>
  The loop of \<^verbatim>\<open>Unpack\<close>:
  \<^verbatim>\<open>for i := 0; i < maxBytesInVarInt-1; i++ {
      if data[index] < 0b10000000 { break }
      index++
      value |= int(data[index]&0b01111111) << (6 + 7*i)
  }\<close>
  It returns the index and the value it leaves, or the panic of a read out of range.
\<close>

function unpack_loop :: "byte list \<Rightarrow> nat \<Rightarrow> nat \<Rightarrow> goint \<Rightarrow> panic + (nat \<times> goint)" where
  "unpack_loop data i index value =
     (if i < maxBytesInVarInt - 1 then
        (case go_index data index of
           Inl p \<Rightarrow> Inl p
         | Inr b \<Rightarrow>
             if b < 0x80 then Inr (index, value)
             else
               (case go_index data (index + 1) of
                  Inl p \<Rightarrow> Inl p
                | Inr b' \<Rightarrow>
                    unpack_loop data (i + 1) (index + 1)
                      (value OR push_bit (6 + 7 * i) (ucast (b' AND 0x7F)))))
      else Inr (index, value))"
  by pat_completeness auto
termination
  by (relation "measure (\<lambda>(data, i, index, value). maxBytesInVarInt - 1 - i)") auto

text \<open>
  \<^verbatim>\<open>Unpack\<close> returns the pair \<^verbatim>\<open>(value, err)\<close> and leaves the receiver advanced past the
  bytes it read.
\<close>

definition Unpack :: "VarInt \<Rightarrow> (goint \<times> error option) result \<times> VarInt" where
  "Unpack v0 =
     (let v = ensure v0; data = contents v in
      if length data = 0 then (Returned (0, Some ErrNoDataToUnpack), v)
      else
        let sign = (ucast (drop_bit 6 (data ! 0) AND 1) :: goint);
            value = (ucast (data ! 0 AND 0x3F) :: goint)
        in case unpack_loop data 0 0 value of
             Inl p \<Rightarrow> (Panicked p, v)
           | Inr (index, value) \<Rightarrow>
               let index = index + 1;
                   value = value XOR (- sign)
               in if length data < index then (Panicked PanicSliceBounds, v)
                  else (Returned (value, None), v\<lparr>Compressed := Some (drop index data)\<rparr>))"

text \<open>
  The loop of \<^verbatim>\<open>Pack\<close>, entered when bits are left after the first byte:
  \<^verbatim>\<open>for {
      index++
      data[index] = byte(value) & 0b01111111
      value >>= 7
      if value != 0 { data[index] |= 1 << 7 } else { break }
  }\<close>
  The write \<^verbatim>\<open>data[index]\<close> panics past the end of \<open>data\<close>, which bounds the loop.
\<close>

function pack_loop :: "byte list \<Rightarrow> nat \<Rightarrow> goint \<Rightarrow> panic + (byte list \<times> nat)" where
  "pack_loop data index value =
     (let index' = index + 1 in
      if length data \<le> index' then Inl PanicIndexOutOfRange
      else
        let data' = data[index' := ucast value AND 0x7F];
            value' = signed_drop_bit 7 value
        in if value' \<noteq> 0 then pack_loop (data'[index' := data' ! index' OR 0x80]) index' value'
           else Inr (data', index'))"
  by pat_completeness auto
termination
  by (relation "measure (\<lambda>(data, index, value). length data - index)") auto

text \<open>\<^verbatim>\<open>unsafe.Sizeof(value)\<close> for the 64-bit \<^verbatim>\<open>int\<close>.\<close>

definition intSize :: nat where
  "intSize = 8"

text \<open>
  \<^verbatim>\<open>Pack\<close> has no return value; it panics on a value outside the 32-bit range, after the
  nil guard and before it builds any byte. \<open>data\<close> has \<^const>\<open>maxBytesInVarInt\<close> zero bytes,
  so the writes at index 0 are in range.
\<close>

definition Pack :: "VarInt \<Rightarrow> goint \<Rightarrow> unit result \<times> VarInt" where
  "Pack v0 value0 =
     (let v = ensure v0 in
      if value0 <s - 2147483648 \<or> 2147483647 <s value0 then (Panicked PanicValueOutOfBounds, v)
      else
        let data = replicate maxBytesInVarInt (0 :: byte);
            index = 0;
            data = data[index := ucast (signed_drop_bit (intSize * 8 - 7) value0) AND 0x40];
            value = value0 XOR signed_drop_bit (intSize * 8 - 1) value0;
            data = data[index := data ! index OR (ucast value AND 0x3F)];
            value = signed_drop_bit 6 value
        in case (if value \<noteq> 0 then pack_loop (data[index := data ! index OR 0x80]) index value
                 else Inr (data, index)) of
             Inl p \<Rightarrow> (Panicked p, v)
           | Inr (data, index) \<Rightarrow>
               (Returned (), v\<lparr>Compressed := Some (contents v @ take (index + 1) data)\<rparr>))"

declare pack_loop.simps [simp del] unpack_loop.simps [simp del]

section \<open>browser/client.go\<close>

subsection \<open>What the file takes from the rest of its package\<close>






subsection \<open>The response classifier\<close>




subsection \<open>The token exchange\<close>










subsection \<open>The typed exchange\<close>










subsection \<open>The classifier as the spec states it\<close>





subsection \<open>The head of a retry loop after some failed attempts\<close>



subsection \<open>A world in which an exchange can only time out\<close>






subsection \<open>A package and transports to run the model on\<close>








section \<open>The wire format of one integer\<close>

text \<open>
  The range that \<^verbatim>\<open>Pack\<close> accepts: \<^verbatim>\<open>math.MinInt32 <= value <= math.MaxInt32\<close>.
\<close>

definition fits_int32 :: "goint \<Rightarrow> bool" where
  "fits_int32 v \<longleftrightarrow> - 2147483648 \<le>s v \<and> v \<le>s 2147483647"

text \<open>
  The format of the spec, byte by byte. \<open>magnitude v\<close> is the value after
  \<^verbatim>\<open>value ^ (value >> 63)\<close>: \<open>v\<close> itself, or its complement when \<open>v\<close> is negative. The
  first byte carries the sign flag (bit 6) and the low 6 bits, each further byte the next
  7 bits; bit 7 says that another byte follows.
\<close>

definition magnitude :: "goint \<Rightarrow> goint" where
  "magnitude v = v XOR signed_drop_bit 63 v"

definition sign_byte :: "goint \<Rightarrow> byte" where
  "sign_byte v = ucast (signed_drop_bit 57 v) AND 0x40"

definition lead_byte :: "goint \<Rightarrow> bool \<Rightarrow> byte" where
  "lead_byte v ext =
     (let b = sign_byte v OR (ucast (magnitude v) AND 0x3F) in if ext then b OR 0x80 else b)"

definition cont_byte :: "goint \<Rightarrow> nat \<Rightarrow> bool \<Rightarrow> byte" where
  "cont_byte v k ext =
     (let b = ucast (drop_bit k (magnitude v)) AND 0x7F in if ext then b OR 0x80 else b)"

text \<open>The bytes of one encoded integer, by the number of 7-bit groups its magnitude needs.\<close>

definition enc :: "goint \<Rightarrow> byte list" where
  "enc v =
     (let m = magnitude v
      in if drop_bit 6 m = 0 then [lead_byte v False]
         else if drop_bit 13 m = 0 then [lead_byte v True, cont_byte v 6 False]
         else if drop_bit 20 m = 0 then [lead_byte v True, cont_byte v 6 True, cont_byte v 13 False]
         else if drop_bit 27 m = 0 then
           [lead_byte v True, cont_byte v 6 True, cont_byte v 13 True, cont_byte v 20 False]
         else [lead_byte v True, cont_byte v 6 True, cont_byte v 13 True, cont_byte v 20 True,
               cont_byte v 27 False])"

definition low_bits :: "goint \<Rightarrow> goint" where
  "low_bits v = magnitude v AND 0x3F"

definition group_bits :: "goint \<Rightarrow> nat \<Rightarrow> goint" where
  "group_bits v k = push_bit k (drop_bit k (magnitude v) AND 0x7F)"

definition sign_flag :: "goint \<Rightarrow> goint" where
  "sign_flag v = (if bit v 63 then 1 else 0)"



section \<open>Bits of a value in the 32-bit range\<close>

lemma fits_int32_bits:
  assumes "fits_int32 v" "31 \<le> n" "n < 64"
  shows "bit v n = bit v 63"
proof -
  from assms(1) have "- (2 ^ 31) \<le> sint v \<and> sint v < 2 ^ 31"
    by (simp add: fits_int32_def word_sle_eq)
  then have e: "signed_take_bit 31 (sint v) = sint v"
    by (simp add: signed_take_bit_int_eq_self_iff)
  have "bit (sint v) k = bit (sint v) 31" if "31 \<le> k" for k
  proof -
    have "bit (sint v) k = bit (signed_take_bit 31 (sint v)) k" by (simp only: e)
    also have "\<dots> = bit (sint v) 31" using that by (simp add: bit_signed_take_bit_iff min_def)
    finally show ?thesis .
  qed
  from this[of n] this[of 63] assms(2,3) show ?thesis
    by (simp add: bit_sint_iff)
qed

lemma bit_sdb63: "bit (signed_drop_bit 63 (v::goint)) n \<longleftrightarrow> n < 64 \<and> bit v 63"
  by (cases "n = 0") (auto simp: bit_simps dest: bit_imp_le_length)

lemma bit_magnitude: "bit (magnitude v) n \<longleftrightarrow> n < 64 \<and> (bit v n \<noteq> bit v 63)"
  by (auto simp: magnitude_def bit_xor_iff bit_sdb63 dest: bit_imp_le_length)

lemma magnitude_small: "fits_int32 v \<Longrightarrow> 31 \<le> n \<Longrightarrow> \<not> bit (magnitude v) n"
  using fits_int32_bits[of v n] by (auto simp: bit_magnitude)

lemma sdb_magnitude: "signed_drop_bit k (magnitude v) = drop_bit k (magnitude v)"
  by (rule bit_word_eqI) (auto simp: bit_simps bit_magnitude dest: bit_imp_le_length)

lemma drop_magnitude_34: "fits_int32 v \<Longrightarrow> 31 \<le> k \<Longrightarrow> drop_bit k (magnitude v) = 0"
  by (rule bit_word_eqI) (auto simp: bit_simps magnitude_small)


section \<open>What \<^verbatim>\<open>Pack\<close> appends\<close>

lemma zeros5: "replicate maxBytesInVarInt (0::byte) = [0,0,0,0,0]"
  by (simp add: maxBytesInVarInt_def numeral_eq_Suc)

lemma upd: "[a,b,c,d,e][0 := x] = [x,b,c,d,e]" "[a,b,c,d,e][1 := x] = [a,x,c,d,e]"
   "[a,b,c,d,e][2 := x] = [a,b,x,d,e]" "[a,b,c,d,e][3 := x] = [a,b,c,x,e]" "[a,b,c,d,e][4 := x] = [a,b,c,d,x]"
  by (simp_all add: numeral_eq_Suc)

lemma nth5: "[a,b,c,d,e] ! 0 = a" "[a,b,c,d,e] ! 1 = b"
   "[a,b,c,d,e] ! 2 = c" "[a,b,c,d,e] ! 3 = d" "[a,b,c,d,e] ! 4 = e"
  by (simp_all add: numeral_eq_Suc)


lemma pack_loop_last:
  "index + 1 < length data \<Longrightarrow> signed_drop_bit 7 m = 0 \<Longrightarrow>
   pack_loop data index m = Inr (data[index + 1 := ucast m AND 0x7F], index + 1)"
  by (subst pack_loop.simps) (simp add: Let_def)

lemma pack_loop_more:
  "index + 1 < length data \<Longrightarrow> signed_drop_bit 7 m \<noteq> 0 \<Longrightarrow>
   pack_loop data index m =
   pack_loop (data[index + 1 := (ucast m AND 0x7F) OR 0x80]) (index + 1) (signed_drop_bit 7 m)"
  by (subst pack_loop.simps) (simp add: Let_def)

lemma sdb_nonneg: "\<not> bit w 63 \<Longrightarrow> signed_drop_bit k (w::goint) = drop_bit k w"
  by (rule bit_word_eqI) (auto simp: bit_simps dest: bit_imp_le_length)

lemma drop_magnitude_nonneg: "\<not> bit (drop_bit j (magnitude v)) 63"
  by (cases "j = 0") (auto simp: bit_simps bit_magnitude)

lemma sdb_drop_magnitude:
  "signed_drop_bit k (drop_bit j (magnitude v)) = drop_bit (k + j) (magnitude v)"
  by (simp add: sdb_nonneg[OF drop_magnitude_nonneg] drop_bit_drop_bit ac_simps)

lemma Pack_enc:
  assumes r: "fits_int32 v"
  shows "Pack buf v = (Returned (), (ensure buf)\<lparr>Compressed := Some (contents (ensure buf) @ enc v)\<rparr>)"
proof -
  let ?m = "magnitude v"
  have z: "drop_bit 34 ?m = 0" using r by (simp add: drop_magnitude_34)
  have nr: "\<not> (v <s - 2147483648 \<or> 2147483647 <s v)"
    using r by (auto simp: fits_int32_def word_sle_eq word_sless_alt)
  note defs = Pack_def Let_def intSize_def zeros5 enc_def sign_byte_def lead_byte_def cont_byte_def
  note steps = sdb_magnitude sdb_drop_magnitude pack_loop_last pack_loop_more upd nth5
  consider (1) "drop_bit 6 ?m = 0"
    | (2) "drop_bit 6 ?m \<noteq> 0" "drop_bit 13 ?m = 0"
    | (3) "drop_bit 6 ?m \<noteq> 0" "drop_bit 13 ?m \<noteq> 0" "drop_bit 20 ?m = 0"
    | (4) "drop_bit 6 ?m \<noteq> 0" "drop_bit 13 ?m \<noteq> 0" "drop_bit 20 ?m \<noteq> 0" "drop_bit 27 ?m = 0"
    | (5) "drop_bit 6 ?m \<noteq> 0" "drop_bit 13 ?m \<noteq> 0" "drop_bit 20 ?m \<noteq> 0" "drop_bit 27 ?m \<noteq> 0"
    by blast
  then show ?thesis
  proof cases
    case 1
    then show ?thesis unfolding defs by (simp only: nr if_False) (simp add: steps flip: magnitude_def)
  next
    case 2
    then show ?thesis unfolding defs by (simp only: nr if_False) (simp add: steps flip: magnitude_def)
  next
    case 3
    then show ?thesis unfolding defs by (simp only: nr if_False) (simp add: steps flip: magnitude_def)
  next
    case 4
    then show ?thesis unfolding defs by (simp only: nr if_False) (simp add: steps flip: magnitude_def)
  next
    case 5
    then show ?thesis using z unfolding defs by (simp only: nr if_False) (simp add: steps flip: magnitude_def)
  qed
qed

section \<open>What \<^verbatim>\<open>Unpack\<close> reads back\<close>

lemma m7: "(0x7F::'a::len word) = mask 7" by (simp add: mask_eq_exp_minus_1)
lemma m6: "(0x3F::'a::len word) = mask 6" by (simp add: mask_eq_exp_minus_1)

lemma bit_int_128: "bit (128::int) n \<longleftrightarrow> n = 7"
proof -
  have "(128::int) = 2 ^ 7" by simp
  then show ?thesis by (simp only: bit_exp_iff) auto
qed

lemma bit_int_64: "bit (64::int) n \<longleftrightarrow> n = 6"
proof -
  have "(64::int) = 2 ^ 6" by simp
  then show ?thesis by (simp only: bit_exp_iff) auto
qed

lemma byte_lt_80: "(b::byte) < 0x80 \<longleftrightarrow> \<not> bit b 7"
proof -
  have "b < 0x80 \<longleftrightarrow> unat b < 2 ^ 7"
    by (simp add: word_less_nat_alt)
  also have "\<dots> \<longleftrightarrow> take_bit 7 (unat b) = unat b"
    by (simp add: take_bit_nat_eq_self_iff)
  also have "\<dots> \<longleftrightarrow> take_bit 7 b = b"
    by (metis unsigned_take_bit_eq word_unat_eq_iff)
  also have "\<dots> \<longleftrightarrow> \<not> bit b 7"
  proof
    assume "take_bit 7 b = b"
    then have "bit b 7 = bit (take_bit 7 b) 7" by simp
    then show "\<not> bit b 7" by (simp add: bit_simps)
  next
    assume h: "\<not> bit b 7"
    show "take_bit 7 b = b"
    proof (rule bit_word_eqI)
      fix n assume "n < LENGTH(8)"
      then have "n < 7 \<or> n = 7" by auto
      with h show "bit (take_bit 7 b) n = bit b n"
        by (auto simp: bit_simps)
    qed
  qed
  finally show ?thesis .
qed

lemma bit_sign_byte: "bit (sign_byte v) n \<longleftrightarrow> n = 6 \<and> bit v 63"
  by (auto simp: sign_byte_def bit_simps bit_int_64)

lemma lead_byte_lt: "lead_byte v ext < 0x80 \<longleftrightarrow> \<not> ext"
  unfolding lead_byte_def Let_def m6
  by (simp add: byte_lt_80 bit_simps bit_sign_byte bit_int_128)

lemma cont_byte_lt: "cont_byte v k ext < 0x80 \<longleftrightarrow> \<not> ext"
  unfolding cont_byte_def Let_def m7
  by (simp add: byte_lt_80 bit_simps bit_int_128)

lemma lead_byte_low: "ucast (lead_byte v ext AND 0x3F) = low_bits v"
  unfolding lead_byte_def low_bits_def Let_def m6
  by (rule bit_word_eqI) (auto simp: bit_simps bit_sign_byte bit_int_128)

lemma lead_byte_sign: "ucast (drop_bit 6 (lead_byte v ext) AND 1) = sign_flag v"
  unfolding lead_byte_def sign_flag_def Let_def m6
  by (rule bit_word_eqI) (auto simp: bit_simps bit_sign_byte bit_int_128 bit_1_iff)

lemma cont_byte_group: "push_bit k (ucast (cont_byte v k ext AND 0x7F)) = group_bits v k"
  unfolding cont_byte_def group_bits_def Let_def m7
  by (rule bit_word_eqI) (auto simp: bit_simps bit_int_128)

lemma unpack_loop_stop:
  "i < 4 \<Longrightarrow> index < length data \<Longrightarrow> data ! index < 0x80 \<Longrightarrow>
   unpack_loop data i index value = Inr (index, value)"
  by (subst unpack_loop.simps) (simp add: go_index_def maxBytesInVarInt_def)

lemma unpack_loop_step:
  "i < 4 \<Longrightarrow> index + 1 < length data \<Longrightarrow> \<not> data ! index < 0x80 \<Longrightarrow>
   unpack_loop data i index value =
   unpack_loop data (i + 1) (index + 1)
     (value OR push_bit (6 + 7 * i) (ucast (data ! (index + 1) AND 0x7F)))"
  by (subst unpack_loop.simps) (simp add: go_index_def maxBytesInVarInt_def)

lemma unpack_loop_end:
  "4 \<le> i \<Longrightarrow> unpack_loop data i index value = Inr (index, value)"
  by (subst unpack_loop.simps) (simp add: maxBytesInVarInt_def)

lemma drop_zero_bits: "drop_bit k (m::goint) = 0 \<Longrightarrow> bit m n \<Longrightarrow> n < k"
proof (rule ccontr)
  assume a: "drop_bit k m = 0" "bit m n" "\<not> n < k"
  have "bit (drop_bit k m) (n - k)" using a(2,3) by (simp add: bit_simps)
  with a(1) show False by simp
qed

lemma bit_group:
  "bit (group_bits v k) n \<longleftrightarrow> k \<le> n \<and> n < k + 7 \<and> bit (magnitude v) n"
  unfolding group_bits_def m7 by (auto simp: bit_simps dest: bit_imp_le_length)

lemma bit_low6: "bit (low_bits v) n \<longleftrightarrow> n < 6 \<and> bit (magnitude v) n"
  unfolding low_bits_def m6 by (auto simp: bit_simps)

lemma reassemble1:
  assumes "drop_bit 6 (magnitude v) = 0"
  shows "low_bits v = magnitude v"
proof (rule bit_word_eqI)
  fix n
  have "bit (magnitude v) n \<Longrightarrow> n < 6" using assms by (rule drop_zero_bits)
  then show "bit (low_bits v) n = bit (magnitude v) n"
    by (simp only: bit_or_iff bit_group bit_low6) auto
qed

lemma reassemble2:
  assumes "drop_bit 13 (magnitude v) = 0"
  shows "low_bits v OR group_bits v 6 = magnitude v"
proof (rule bit_word_eqI)
  fix n
  have "bit (magnitude v) n \<Longrightarrow> n < 13" using assms by (rule drop_zero_bits)
  then show "bit (low_bits v OR group_bits v 6) n = bit (magnitude v) n"
    by (simp only: bit_or_iff bit_group bit_low6) auto
qed

lemma reassemble3:
  assumes "drop_bit 20 (magnitude v) = 0"
  shows "(low_bits v OR group_bits v 6) OR group_bits v 13 = magnitude v"
proof (rule bit_word_eqI)
  fix n
  have "bit (magnitude v) n \<Longrightarrow> n < 20" using assms by (rule drop_zero_bits)
  then show "bit ((low_bits v OR group_bits v 6) OR group_bits v 13) n = bit (magnitude v) n"
    by (simp only: bit_or_iff bit_group bit_low6) auto
qed

lemma reassemble4:
  assumes "drop_bit 27 (magnitude v) = 0"
  shows "((low_bits v OR group_bits v 6) OR group_bits v 13) OR group_bits v 20 = magnitude v"
proof (rule bit_word_eqI)
  fix n
  have "bit (magnitude v) n \<Longrightarrow> n < 27" using assms by (rule drop_zero_bits)
  then show "bit (((low_bits v OR group_bits v 6) OR group_bits v 13) OR group_bits v 20) n = bit (magnitude v) n"
    by (simp only: bit_or_iff bit_group bit_low6) auto
qed

lemma reassemble5:
  assumes "drop_bit 34 (magnitude v) = 0"
  shows "(((low_bits v OR group_bits v 6) OR group_bits v 13) OR group_bits v 20) OR group_bits v 27 = magnitude v"
proof (rule bit_word_eqI)
  fix n
  have "bit (magnitude v) n \<Longrightarrow> n < 34" using assms by (rule drop_zero_bits)
  then show "bit ((((low_bits v OR group_bits v 6) OR group_bits v 13) OR group_bits v 20) OR group_bits v 27) n = bit (magnitude v) n"
    by (simp only: bit_or_iff bit_group bit_low6) auto
qed

lemma restore_sign: "magnitude v XOR (- sign_flag v) = v"
  unfolding sign_flag_def by (rule bit_word_eqI) (auto simp: bit_simps bit_magnitude)

lemma Unpack_enc:
  assumes r: "fits_int32 v"
  shows "Unpack \<lparr>Compressed = Some (enc v @ rest)\<rparr> = (Returned (v, None), \<lparr>Compressed = Some rest\<rparr>)"
proof -
  let ?m = "magnitude v"
  have z: "drop_bit 34 ?m = 0" using r by (simp add: drop_magnitude_34)
  note defs = Unpack_def Let_def enc_def ensure_def contents_def
  note bytes = lead_byte_lt cont_byte_lt lead_byte_low lead_byte_sign cont_byte_group
  note loop = unpack_loop_stop unpack_loop_step unpack_loop_end
  consider (1) "drop_bit 6 ?m = 0"
    | (2) "drop_bit 6 ?m \<noteq> 0" "drop_bit 13 ?m = 0"
    | (3) "drop_bit 6 ?m \<noteq> 0" "drop_bit 13 ?m \<noteq> 0" "drop_bit 20 ?m = 0"
    | (4) "drop_bit 6 ?m \<noteq> 0" "drop_bit 13 ?m \<noteq> 0" "drop_bit 20 ?m \<noteq> 0" "drop_bit 27 ?m = 0"
    | (5) "drop_bit 6 ?m \<noteq> 0" "drop_bit 13 ?m \<noteq> 0" "drop_bit 20 ?m \<noteq> 0" "drop_bit 27 ?m \<noteq> 0"
    by blast
  then show ?thesis
  proof cases
    case 1
    then show ?thesis unfolding defs
      by (simp add: loop bytes reassemble1 restore_sign)
  next
    case 2
    then show ?thesis unfolding defs
      by (simp add: loop bytes reassemble2 restore_sign)
  next
    case 3
    then show ?thesis unfolding defs
      by (simp add: loop bytes reassemble3 restore_sign)
  next
    case 4
    then show ?thesis unfolding defs
      by (simp add: loop bytes reassemble4 restore_sign)
  next
    case 5
    then show ?thesis unfolding defs
      by (simp add: loop bytes reassemble5[OF z] restore_sign)
  qed
qed





section \<open>Whole calls of \<^verbatim>\<open>Pack\<close> and \<^verbatim>\<open>Unpack\<close>\<close>

lemma contents_ensure: "contents (ensure b) = contents b"
  by (simp add: ensure_def contents_def Clear_def split: option.splits)

lemma ensure_Some: "ensure \<lparr>Compressed = Some bs\<rparr> = \<lparr>Compressed = Some bs\<rparr>"
  by (simp add: ensure_def)

lemma Pack_in_range:
  "fits_int32 v \<Longrightarrow> Pack buf v = (Returned (), \<lparr>Compressed = Some (contents buf @ enc v)\<rparr>)"
proof -
  assume r: "fits_int32 v"
  have u: "(ensure buf)\<lparr>Compressed := Some X\<rparr> = \<lparr>Compressed = Some X\<rparr>" for X
    by (cases "ensure buf") simp
  show ?thesis
    by (simp only: Pack_enc[OF r] u contents_ensure)
qed

lemma Pack_panics:
  "v <s - 2147483648 \<or> 2147483647 <s v \<Longrightarrow> Pack buf v = (Panicked PanicValueOutOfBounds, ensure buf)"
  by (simp add: Pack_def Let_def)


lemma Pack_appends: "\<exists>bs. contents (snd (Pack b v)) = contents b @ bs"
proof (cases "v <s - 2147483648 \<or> 2147483647 <s v")
  case True
  then show ?thesis by (simp add: Pack_panics contents_ensure)
next
  case False
  then have "fits_int32 v" by (auto simp: fits_int32_def word_sle_eq word_sless_alt)
  then show ?thesis by (simp add: Pack_in_range contents_def)
qed




section \<open>The classifier\<close>




section \<open>The retry loops\<close>







section \<open>Termination of the retry loops\<close>


























section \<open>The claims on the codec\<close>

text \<open>
  Claim C1. For every value \<open>v\<close> of the signed 32-bit range, \<^verbatim>\<open>Pack(v)\<close> on a fresh buffer
  (nil or empty) returns without a panic, and \<^verbatim>\<open>Unpack()\<close> on the buffer it leaves returns
  \<open>v\<close> with a nil error and leaves the buffer empty: it has read exactly the bytes that
  \<^verbatim>\<open>Pack\<close> wrote. The witness runs the theorem at 0, 2147483647, -2147483648 and -1.
\<close>

theorem Pack_Unpack_roundtrip:
  assumes "fits_int32 v" and "contents buf = []"
  shows "fst (Pack buf v) = Returned () \<and>
         Unpack (snd (Pack buf v)) = (Returned (v, None), \<lparr>Compressed = Some []\<rparr>)"
  using assms Unpack_enc[of v "[]"] by (simp add: Pack_in_range)

theorem Pack_Unpack_roundtrip_witness:
  "Unpack (snd (Pack \<lparr>Compressed = None\<rparr> 0)) = (Returned (0, None), \<lparr>Compressed = Some []\<rparr>) \<and>
   Unpack (snd (Pack \<lparr>Compressed = None\<rparr> 2147483647)) = (Returned (2147483647, None), \<lparr>Compressed = Some []\<rparr>) \<and>
   Unpack (snd (Pack \<lparr>Compressed = None\<rparr> (- 2147483648))) = (Returned (- 2147483648, None), \<lparr>Compressed = Some []\<rparr>) \<and>
   Unpack (snd (Pack \<lparr>Compressed = Some []\<rparr> (- 1))) = (Returned (- 1, None), \<lparr>Compressed = Some []\<rparr>)"
  using Pack_Unpack_roundtrip[of 0 "\<lparr>Compressed = None\<rparr>"]
    Pack_Unpack_roundtrip[of 2147483647 "\<lparr>Compressed = None\<rparr>"]
    Pack_Unpack_roundtrip[of "- 2147483648" "\<lparr>Compressed = None\<rparr>"]
    Pack_Unpack_roundtrip[of "- 1" "\<lparr>Compressed = Some []\<rparr>"]
  by (simp add: fits_int32_def word_sle_eq contents_def)

text \<open>
  Claim C5. \<^verbatim>\<open>Unpack()\<close> on a buffer that holds no byte returns the value 0 with
  \<^verbatim>\<open>ErrNoDataToUnpack\<close>, and the buffer still holds no byte.
\<close>

theorem Unpack_empty:
  "contents buf = [] \<Longrightarrow>
   fst (Unpack buf) = Returned (0, Some ErrNoDataToUnpack) \<and> contents (snd (Unpack buf)) = []"
  by (simp add: Unpack_def Let_def contents_ensure)

theorem Unpack_empty_witness:
  "fst (Unpack \<lparr>Compressed = None\<rparr>) = Returned (0, Some ErrNoDataToUnpack) \<and>
   contents (snd (Unpack \<lparr>Compressed = None\<rparr>)) = [] \<and>
   fst (Unpack \<lparr>Compressed = Some []\<rparr>) = Returned (0, Some ErrNoDataToUnpack) \<and>
   contents (snd (Unpack \<lparr>Compressed = Some []\<rparr>)) = []"
  using Unpack_empty[of "\<lparr>Compressed = None\<rparr>"] Unpack_empty[of "\<lparr>Compressed = Some []\<rparr>"]
  by (simp add: contents_def)

text \<open>
  Claim C6. For every value outside the signed 32-bit range, \<^verbatim>\<open>Pack\<close> panics (it returns
  no error value), and the buffer holds the bytes it held before: nothing is appended, no
  truncated value is written.
\<close>

theorem Pack_out_of_range:
  "v <s - 2147483648 \<or> 2147483647 <s v \<Longrightarrow>
   fst (Pack buf v) = Panicked PanicValueOutOfBounds \<and> contents (snd (Pack buf v)) = contents buf"
  by (simp add: Pack_panics contents_ensure)

theorem Pack_out_of_range_witness:
  "fst (Pack \<lparr>Compressed = Some [1, 2]\<rparr> 2147483648) = Panicked PanicValueOutOfBounds \<and>
   contents (snd (Pack \<lparr>Compressed = Some [1, 2]\<rparr> 2147483648)) = [1, 2] \<and>
   fst (Pack \<lparr>Compressed = None\<rparr> (- 2147483649)) = Panicked PanicValueOutOfBounds \<and>
   contents (snd (Pack \<lparr>Compressed = None\<rparr> (- 2147483649))) = []"
  using Pack_out_of_range[of 2147483648 "\<lparr>Compressed = Some [1, 2]\<rparr>"]
    Pack_out_of_range[of "- 2147483649" "\<lparr>Compressed = None\<rparr>"]
  by (simp add: word_sless_alt contents_def)

text \<open>
  Claim C7. Packing \<open>v1\<close> and then \<open>v2\<close>, both of the signed 32-bit range, into one fresh
  buffer and unpacking twice returns \<open>v1\<close> first and \<open>v2\<close> second, each with a nil error,
  and leaves the buffer empty. And for every buffer and every value, the bytes a buffer
  holds after \<^verbatim>\<open>Pack\<close> are the bytes it held before followed by the new ones.
\<close>

theorem Pack_twice_Unpack_twice:
  assumes "fits_int32 v1" and "fits_int32 v2" and "contents buf = []"
  shows "(let b1 = snd (Pack buf v1); b2 = snd (Pack b1 v2);
              b3 = snd (Unpack b2); b4 = snd (Unpack b3)
          in fst (Pack buf v1) = Returned () \<and> fst (Pack b1 v2) = Returned () \<and>
             fst (Unpack b2) = Returned (v1, None) \<and> fst (Unpack b3) = Returned (v2, None) \<and>
             contents b4 = []) \<and>
         (\<forall>b v. \<exists>bs. contents (snd (Pack b v)) = contents b @ bs)"
proof
  show "\<forall>b v. \<exists>bs. contents (snd (Pack b v)) = contents b @ bs"
    by (simp add: Pack_appends)
  show "let b1 = snd (Pack buf v1); b2 = snd (Pack b1 v2);
            b3 = snd (Unpack b2); b4 = snd (Unpack b3)
        in fst (Pack buf v1) = Returned () \<and> fst (Pack b1 v2) = Returned () \<and>
           fst (Unpack b2) = Returned (v1, None) \<and> fst (Unpack b3) = Returned (v2, None) \<and>
           contents b4 = []"
    using assms Unpack_enc[of v1 "enc v2"] Unpack_enc[of v2 "[]"]
    by (simp add: Pack_in_range contents_def)
qed

theorem Pack_twice_Unpack_twice_witness:
  "(let b1 = snd (Pack \<lparr>Compressed = None\<rparr> 300); b2 = snd (Pack b1 (- 7));
        b3 = snd (Unpack b2); b4 = snd (Unpack b3)
    in contents b2 = [0xAC, 0x04, 0x46] \<and>
       fst (Unpack b2) = Returned (300, None) \<and> fst (Unpack b3) = Returned (- 7, None) \<and>
       contents b4 = [])"
proof -
  have b: "contents (snd (Pack (snd (Pack \<lparr>Compressed = None\<rparr> 300)) (- 7))) = [0xAC, 0x04, 0x46]"
    by code_simp
  show ?thesis
    using Pack_twice_Unpack_twice[of 300 "- 7" "\<lparr>Compressed = None\<rparr>", THEN conjunct1] b
    by (simp add: fits_int32_def word_sle_eq contents_def Let_def)
qed




section \<open>The claims on the client\<close>












end
